theory Spec2Isabelle
  imports Main
begin

text \<open>
  A model of \<^verbatim>\<open>client/src/game/ui/ActiveShapeStore.ts\<close>, the reactive facade in front of
  the selected shape: its state, its getters and its mutations, each mutation returning
  the state it leaves, the calls it makes on the shape and the exception it raises, if
  any. The properties of the specification are stated and settled on this model in the
  last section.
\<close>


section \<open>Host-language primitives\<close>

text \<open>
  The store is TypeScript. The only exception its code can raise by itself is the
  \<^verbatim>\<open>TypeError\<close> of a property access on \<^verbatim>\<open>null\<close> or \<^verbatim>\<open>undefined\<close>
  (behind a non-null assertion \<^verbatim>\<open>!\<close>, which is erased at run time).
\<close>

datatype js_error = TypeError

text \<open>
  A value that is a string, \<^verbatim>\<open>null\<close> or \<^verbatim>\<open>undefined\<close>. Fields declared
  \<^verbatim>\<open>string | null\<close> are kept as \<open>string option\<close> (\<open>None\<close> is \<^verbatim>\<open>null\<close>) and
  embedded with \<open>js_of\<close> where the code compares them with \<^verbatim>\<open>undefined\<close>.
\<close>

datatype js_value = JsUndefined | JsNull | JsString string

fun js_of :: "string option \<Rightarrow> js_value" where
  "js_of None = JsNull"
| "js_of (Some x) = JsString x"

text \<open>\<^verbatim>\<open>x ?? undefined\<close>: \<^verbatim>\<open>null\<close> and \<^verbatim>\<open>undefined\<close> both become \<^verbatim>\<open>undefined\<close>.\<close>

fun nullish_undefined :: "js_value \<Rightarrow> js_value" where
  "nullish_undefined JsNull = JsUndefined"
| "nullish_undefined v = v"

text \<open>
  \<^verbatim>\<open>Array.prototype.findIndex\<close>: the index of the first element that satisfies the
  predicate, \<open>-1\<close> when there is none.
\<close>

primrec findIndex :: "('a \<Rightarrow> bool) \<Rightarrow> 'a list \<Rightarrow> int" where
  "findIndex P [] = - 1"
| "findIndex P (x # xs) =
     (if P x then 0 else (let i = findIndex P xs in if i < 0 then - 1 else i + 1))"

text \<open>
  \<^verbatim>\<open>Array.prototype.find\<close> returns the first matching element itself (a reference
  into the array), so that a later assignment to it changes the array in place. The
  model returns the element together with its position, which stands for the reference.
\<close>

primrec find_ref :: "('a \<Rightarrow> bool) \<Rightarrow> 'a list \<Rightarrow> (nat \<times> 'a) option" where
  "find_ref P [] = None"
| "find_ref P (x # xs) =
     (if P x then Some (0, x)
      else (case find_ref P xs of None \<Rightarrow> None | Some (i, y) \<Rightarrow> Some (Suc i, y)))"

text \<open>
  \<^verbatim>\<open>Array.prototype.splice\<close>: a negative start counts from the end and is clamped
  at 0, a start beyond the end is clamped at the length.
\<close>

definition splice_start :: "int \<Rightarrow> nat \<Rightarrow> nat" where
  "splice_start start len =
     (if start < 0 then nat (max (int len + start) 0) else min (nat start) len)"

text \<open>\<^verbatim>\<open>xs.splice(start, 0, x)\<close>: the array afterwards.\<close>

definition splice_insert :: "int \<Rightarrow> 'a \<Rightarrow> 'a list \<Rightarrow> 'a list" where
  "splice_insert start x xs =
     (let k = splice_start start (length xs) in take k xs @ x # drop k xs)"

text \<open>\<^verbatim>\<open>xs.splice(start, 1)\<close>: the removed elements and the array afterwards.\<close>

definition splice_remove :: "int \<Rightarrow> 'a list \<Rightarrow> 'a list \<times> 'a list" where
  "splice_remove start xs =
     (let k = splice_start start (length xs)
      in (take 1 (drop k xs), take k xs @ drop (Suc k) xs))"

section \<open>Data model\<close>

text \<open>
  Modelled from the spec: the enum \<^verbatim>\<open>SyncTo\<close> of \<^verbatim>\<open>core/comm/types\<close> is not part
  of the sources at hand. The store names two of its members, \<^verbatim>\<open>SyncTo.UI\<close> and
  \<^verbatim>\<open>SyncTo.SERVER\<close>; the spec describes the tag as three-valued.
\<close>

datatype SyncTo = SERVER | SHAPE | UI

text \<open>
  Modelled from the spec: \<^verbatim>\<open>ShapeAccess\<close> and \<^verbatim>\<open>ShapeOwner\<close> of
  \<^verbatim>\<open>shapes/owners\<close> are not part of the sources at hand. The spec gives
  \<^verbatim>\<open>{ edit, movement, vision }\<close> and \<^verbatim>\<open>{ user, access }\<close>.
\<close>

record ShapeAccess =
  edit :: bool
  movement :: bool
  vision :: bool

record ShapeOwner =
  user :: string
  access :: ShapeAccess

text \<open>
  Modelled from the spec: \<^verbatim>\<open>Tracker\<close> and \<^verbatim>\<open>Aura\<close> of \<^verbatim>\<open>shapes/interfaces\<close> are
  not part of the sources at hand. Both have a stable identity \<^verbatim>\<open>uuid\<close>; the store
  reads no other declared field of them, so the remaining declared fields are one value
  of a type parameter.
\<close>

record 'd Declared =
  uuid :: string
  payload :: 'd

text \<open>
  A \<^verbatim>\<open>Tracker\<close> or \<^verbatim>\<open>Aura\<close> object as the store receives it. An object of the
  interface may carry properties beyond the declared ones, and the store itself hands
  its \<^verbatim>\<open>UiTracker\<close> objects, which carry \<^verbatim>\<open>shape\<close> and \<^verbatim>\<open>temporary\<close>, on as
  \<^verbatim>\<open>Tracker\<close>s (\<open>updateTracker\<close>). These two properties matter to the store, which
  spreads the object over its own \<^verbatim>\<open>shape\<close> and \<^verbatim>\<open>temporary\<close>: \<open>own_shape\<close> and
  \<open>own_temporary\<close> are their values where the object carries them.
\<close>

record 'd Entity = "'d Declared" +
  own_shape :: "string option"
  own_temporary :: "bool option"

text \<open>An object that carries the declared fields only.\<close>

definition plain :: "string \<Rightarrow> 'd \<Rightarrow> 'd Entity" where
  "plain i v = \<lparr>uuid = i, payload = v, own_shape = None, own_temporary = None\<rparr>"

text \<open>
  \<^verbatim>\<open>UiTracker\<close> and \<^verbatim>\<open>UiAura\<close>, declared in the store as the intersection with
  \<^verbatim>\<open>{ shape: string; temporary: boolean }\<close>.
\<close>

record 'd UiEntity = "'d Declared" +
  shape :: string
  temporary :: bool

type_synonym 't Tracker = "'t Entity"

type_synonym 'a Aura = "'a Entity"

type_synonym 't UiTracker = "'t UiEntity"

type_synonym 'a UiAura = "'a UiEntity"

text \<open>
  \<^verbatim>\<open>Partial<Tracker>\<close>, the delta of an update: every field is optional. The
  identity is an optional string; the effect of the remaining optional fields on the
  remaining fields is a function on them.
\<close>

record 'd Delta =
  d_uuid :: "string option"
  d_payload :: "'d \<Rightarrow> 'd"

text \<open>\<^verbatim>\<open>Object.assign(entity, delta)\<close>; \<open>shape\<close> and \<open>temporary\<close> are no fields of a delta.\<close>

definition assign :: "'d UiEntity \<Rightarrow> 'd Delta \<Rightarrow> 'd UiEntity" where
  "assign x d =
     x\<lparr>uuid := (case d_uuid d of None \<Rightarrow> uuid x | Some u \<Rightarrow> u),
       payload := d_payload d (payload x)\<rparr>"

text \<open>
  A \<^verbatim>\<open>UiTracker\<close> handed to a method of the shape as a \<^verbatim>\<open>Tracker\<close>: the same
  object, with its \<^verbatim>\<open>shape\<close> and \<^verbatim>\<open>temporary\<close>.
\<close>

definition entity_of :: "'d UiEntity \<Rightarrow> 'd Entity" where
  "entity_of x =
     \<lparr>uuid = uuid x, payload = payload x,
      own_shape = Some (shape x), own_temporary = Some (temporary x)\<rparr>"

text \<open>
  The slice of a \<^verbatim>\<open>Shape\<close> that \<^verbatim>\<open>setActiveShape\<close> reads: \<open>own_trackers\<close> is the
  value of \<^verbatim>\<open>getTrackers(false)\<close> and \<open>own_auras\<close> of \<^verbatim>\<open>getAuras(false)\<close>.
\<close>

record ('t, 'a) Shape =
  shape_uuid :: string
  defaultAccess :: ShapeAccess
  shape_owners :: "ShapeOwner list"
  own_trackers :: "'t Tracker list"
  own_auras :: "'a Aura list"

text \<open>
  What the store reads of its collaborators: \<^verbatim>\<open>gameStore\<close> (\<open>IS_DM\<close>,
  \<open>FAKE_PLAYER\<close>, \<open>activeTokens\<close>, \<open>username\<close>) and \<^verbatim>\<open>layerManager\<close>
  (\<open>UUIDMap\<close>, \<open>getCompositeParent\<close>). \<open>emptyTracker\<close> and \<open>emptyAura\<close> are the
  remaining fields of the entity that \<^verbatim>\<open>createEmptyTracker\<close> and
  \<^verbatim>\<open>createEmptyAura\<close> build.
\<close>

record ('t, 'a) env =
  IS_DM :: bool
  FAKE_PLAYER :: bool
  activeTokens :: "string list"
  username :: string
  UUIDMap :: "string \<rightharpoonup> ('t, 'a) Shape"
  getCompositeParent :: "string \<rightharpoonup> ('t, 'a) Shape"
  emptyTracker :: 't
  emptyAura :: 'a

text \<open>
  Modelled from the spec: \<^verbatim>\<open>createEmptyTracker\<close> (\<^verbatim>\<open>shapes/tracker\<close>) and
  \<^verbatim>\<open>createEmptyAura\<close> (\<^verbatim>\<open>shapes/aura\<close>) are not part of the sources at hand. The
  spec describes their result as the placeholder entry, \<^verbatim>\<open>temporary: true\<close>, of the
  given shape. Its identity is drawn at random; the model takes it as the argument
  \<open>fresh\<close>.
\<close>

definition createEmptyTracker :: "('t, 'a) env \<Rightarrow> string \<Rightarrow> string \<Rightarrow> 't UiTracker" where
  "createEmptyTracker env fresh sh =
     \<lparr>uuid = fresh, payload = emptyTracker env, shape = sh, temporary = True\<rparr>"

definition createEmptyAura :: "('t, 'a) env \<Rightarrow> string \<Rightarrow> string \<Rightarrow> 'a UiAura" where
  "createEmptyAura env fresh sh =
     \<lparr>uuid = fresh, payload = emptyAura env, shape = sh, temporary = True\<rparr>"

text \<open>
  \<^verbatim>\<open>{ shape, temporary: false, ...tracker }\<close>: the object is spread last, so a
  \<^verbatim>\<open>shape\<close> or \<^verbatim>\<open>temporary\<close> that it carries replaces the one written before it.
\<close>

definition toUiTrackers :: "'t Tracker list \<Rightarrow> string \<Rightarrow> 't UiTracker list" where
  "toUiTrackers trackers sh =
     map (\<lambda>tracker. \<lparr>uuid = uuid tracker, payload = payload tracker,
                      shape = (case own_shape tracker of None \<Rightarrow> sh | Some q \<Rightarrow> q),
                      temporary = (case own_temporary tracker of None \<Rightarrow> False | Some b \<Rightarrow> b)\<rparr>)
       trackers"

definition toUiAuras :: "'a Aura list \<Rightarrow> string \<Rightarrow> 'a UiAura list" where
  "toUiAuras auras sh =
     map (\<lambda>aura. \<lparr>uuid = uuid aura, payload = payload aura,
                   shape = (case own_shape aura of None \<Rightarrow> sh | Some q \<Rightarrow> q),
                   temporary = (case own_temporary aura of None \<Rightarrow> False | Some b \<Rightarrow> b)\<rparr>)
       auras"

text \<open>The private fields of \<^verbatim>\<open>ActiveShapeStore\<close> (\<open>s_uuid\<close> is \<^verbatim>\<open>_uuid\<close>, and so on).\<close>

record ('t, 'a) state =
  s_uuid :: "string option"
  s_parentUuid :: "string option"
  s_lastUuid :: "string option"
  s_access :: "ShapeAccess option"
  s_owners :: "ShapeOwner list"
  s_trackers :: "'t UiTracker list"
  firstRealTrackerIndex :: int
  s_auras :: "'a UiAura list"
  firstRealAuraIndex :: int

definition initial :: "('t, 'a) state" where
  "initial =
     \<lparr>s_uuid = None, s_parentUuid = None, s_lastUuid = None, s_access = None,
      s_owners = [], s_trackers = [], firstRealTrackerIndex = 0,
      s_auras = [], firstRealAuraIndex = 0\<rparr>"

text \<open>
  The Domain Mutation Gateway: the methods of \<^verbatim>\<open>Shape\<close> that the store calls. The
  first argument is the key under which the shape was looked up in \<open>UUIDMap\<close>.
\<close>

datatype ('t, 'a) gateway_call =
    Shape_updateDefaultOwner string ShapeAccess SyncTo
  | Shape_addOwner string ShapeOwner SyncTo
  | Shape_updateOwner string ShapeOwner SyncTo
  | Shape_removeOwner string string SyncTo
  | Shape_pushTracker string "'t Tracker" SyncTo
  | Shape_updateTracker string string "'t Delta" SyncTo
  | Shape_removeTracker string string SyncTo
  | Shape_pushAura string "'a Aura" SyncTo
  | Shape_updateAura string string "'a Delta" SyncTo
  | Shape_removeAura string string SyncTo

text \<open>
  What one mutation leaves behind: the state (a mutation that raises has changed the
  state up to the raise), the gateway calls it made, in order, and the exception it
  raised, if any.
\<close>

record ('t, 'a) outcome =
  st :: "('t, 'a) state"
  calls :: "('t, 'a) gateway_call list"
  raised :: "js_error option"

definition returns :: "('t, 'a) state \<Rightarrow> ('t, 'a) gateway_call list \<Rightarrow> ('t, 'a) outcome" where
  "returns s cs = \<lparr>st = s, calls = cs, raised = None\<rparr>"

definition throws :: "js_error \<Rightarrow> ('t, 'a) state \<Rightarrow> ('t, 'a) outcome" where
  "throws e s = \<lparr>st = s, calls = [], raised = Some e\<rparr>"

section \<open>Getters\<close>

definition get_uuid :: "('t, 'a) state \<Rightarrow> js_value" where
  "get_uuid s = nullish_undefined (js_of (s_uuid s))"

definition get_parentUuid :: "('t, 'a) state \<Rightarrow> js_value" where
  "get_parentUuid s = nullish_undefined (js_of (s_parentUuid s))"

definition get_lastUuid :: "('t, 'a) state \<Rightarrow> js_value" where
  "get_lastUuid s = nullish_undefined (js_of (s_lastUuid s))"

definition isComposite :: "('t, 'a) state \<Rightarrow> bool" where
  "isComposite s = (js_of (s_parentUuid s) \<noteq> JsUndefined)"

text \<open>
  \<^verbatim>\<open>||\<close> evaluates from the left and stops at the first true operand, so
  \<^verbatim>\<open>this._access!.edit\<close> is read, and raises on \<^verbatim>\<open>null\<close>, only when the two
  operands before it are false.
\<close>

definition hasEditAccess :: "('t, 'a) env \<Rightarrow> ('t, 'a) state \<Rightarrow> js_error + bool" where
  "hasEditAccess env s =
     (case s_uuid s of
        None \<Rightarrow> Inr False
      | Some u \<Rightarrow>
          if IS_DM env \<or> (FAKE_PLAYER env \<and> u \<in> set (activeTokens env)) then Inr True
          else (case s_access s of
                  None \<Rightarrow> Inl TypeError
                | Some a \<Rightarrow>
                    Inr (edit a \<or>
                         list_ex (\<lambda>u. user u = username env \<and> edit (access u) = True)
                           (s_owners s))))"

definition hasDefaultEditAccess :: "('t, 'a) state \<Rightarrow> js_error + bool" where
  "hasDefaultEditAccess s =
     (case s_uuid s of None \<Rightarrow> Inr False
      | Some u \<Rightarrow> (case s_access s of None \<Rightarrow> Inl TypeError | Some a \<Rightarrow> Inr (edit a)))"

definition hasDefaultMovementAccess :: "('t, 'a) state \<Rightarrow> js_error + bool" where
  "hasDefaultMovementAccess s =
     (case s_uuid s of None \<Rightarrow> Inr False
      | Some u \<Rightarrow> (case s_access s of None \<Rightarrow> Inl TypeError | Some a \<Rightarrow> Inr (movement a)))"

definition hasDefaultVisionAccess :: "('t, 'a) state \<Rightarrow> js_error + bool" where
  "hasDefaultVisionAccess s =
     (case s_uuid s of None \<Rightarrow> Inr False
      | Some u \<Rightarrow> (case s_access s of None \<Rightarrow> Inl TypeError | Some a \<Rightarrow> Inr (vision a)))"

section \<open>Mutations\<close>

text \<open>
  Every mutation ends with the same block,
  \<^verbatim>\<open>if (data.syncTo !== SyncTo.UI) { const shape = layerManager.UUIDMap.get(key)!; shape.m(...); }\<close>.
  The method call on the result of \<^verbatim>\<open>get\<close> raises when the key is not in the map.
\<close>

definition forward ::
  "('t, 'a) env \<Rightarrow> SyncTo \<Rightarrow> string \<Rightarrow> ('t, 'a) gateway_call \<Rightarrow> ('t, 'a) state \<Rightarrow> ('t, 'a) outcome" where
  "forward env syncTo key c s =
     (if syncTo \<noteq> UI then
        (case UUIDMap env key of None \<Rightarrow> throws TypeError s | Some sh \<Rightarrow> returns s [c])
      else returns s [])"

subsection \<open>Access\<close>

definition setDefaultAccess ::
  "('t, 'a) env \<Rightarrow> ShapeAccess \<Rightarrow> SyncTo \<Rightarrow> ('t, 'a) state \<Rightarrow> ('t, 'a) outcome" where
  "setDefaultAccess env acc syncTo s =
     (case s_uuid s of
        None \<Rightarrow> returns s []
      | Some u \<Rightarrow>
          (case hasEditAccess env s of
             Inl e \<Rightarrow> throws e s
           | Inr b \<Rightarrow>
               if \<not> b then returns s []
               else
                 let a = \<lparr>edit = edit acc, movement = movement acc, vision = vision acc\<rparr>;
                     s1 = s\<lparr>s_access := Some a\<rparr>
                 in forward env syncTo u (Shape_updateDefaultOwner u a syncTo) s1))"

definition setDefaultEditAccess ::
  "('t, 'a) env \<Rightarrow> bool \<Rightarrow> SyncTo \<Rightarrow> ('t, 'a) state \<Rightarrow> ('t, 'a) outcome" where
  "setDefaultEditAccess env editAccess syncTo s =
     (case s_uuid s of
        None \<Rightarrow> returns s []
      | Some u \<Rightarrow>
          (case hasEditAccess env s of
             Inl e \<Rightarrow> throws e s
           | Inr b \<Rightarrow>
               if \<not> b then returns s []
               else
                 (case s_access s of
                    None \<Rightarrow> throws TypeError s
                  | Some a0 \<Rightarrow>
                      let a1 = a0\<lparr>edit := editAccess\<rparr>;
                          a2 = (if editAccess then a1\<lparr>movement := True, vision := True\<rparr> else a1);
                          s1 = s\<lparr>s_access := Some a2\<rparr>
                      in forward env syncTo u (Shape_updateDefaultOwner u a2 syncTo) s1)))"

definition setDefaultMovementAccess ::
  "('t, 'a) env \<Rightarrow> bool \<Rightarrow> SyncTo \<Rightarrow> ('t, 'a) state \<Rightarrow> ('t, 'a) outcome" where
  "setDefaultMovementAccess env movementAccess syncTo s =
     (case s_uuid s of
        None \<Rightarrow> returns s []
      | Some u \<Rightarrow>
          (case hasEditAccess env s of
             Inl e \<Rightarrow> throws e s
           | Inr b \<Rightarrow>
               if \<not> b then returns s []
               else
                 (case s_access s of
                    None \<Rightarrow> throws TypeError s
                  | Some a0 \<Rightarrow>
                      let a1 = a0\<lparr>movement := movementAccess\<rparr>;
                          a2 = (if movementAccess then a1\<lparr>vision := True\<rparr> else a1\<lparr>edit := False\<rparr>);
                          s1 = s\<lparr>s_access := Some a2\<rparr>
                      in forward env syncTo u (Shape_updateDefaultOwner u a2 syncTo) s1)))"

definition setDefaultVisionAccess ::
  "('t, 'a) env \<Rightarrow> bool \<Rightarrow> SyncTo \<Rightarrow> ('t, 'a) state \<Rightarrow> ('t, 'a) outcome" where
  "setDefaultVisionAccess env visionAccess syncTo s =
     (case s_uuid s of
        None \<Rightarrow> returns s []
      | Some u \<Rightarrow>
          (case hasEditAccess env s of
             Inl e \<Rightarrow> throws e s
           | Inr b \<Rightarrow>
               if \<not> b then returns s []
               else
                 (case s_access s of
                    None \<Rightarrow> throws TypeError s
                  | Some a0 \<Rightarrow>
                      let a1 = a0\<lparr>vision := visionAccess\<rparr>;
                          a2 = (if \<not> visionAccess then a1\<lparr>movement := False, edit := False\<rparr> else a1);
                          s1 = s\<lparr>s_access := Some a2\<rparr>
                      in forward env syncTo u (Shape_updateDefaultOwner u a2 syncTo) s1)))"

definition addOwner ::
  "('t, 'a) env \<Rightarrow> ShapeOwner \<Rightarrow> SyncTo \<Rightarrow> ('t, 'a) state \<Rightarrow> ('t, 'a) outcome" where
  "addOwner env owner syncTo s =
     (case s_uuid s of
        None \<Rightarrow> returns s []
      | Some u \<Rightarrow>
          (case hasEditAccess env s of
             Inl e \<Rightarrow> throws e s
           | Inr b \<Rightarrow>
               if \<not> b then returns s []
               else
                 let s1 = s\<lparr>s_owners := s_owners s @ [owner]\<rparr>
                 in forward env syncTo u (Shape_addOwner u owner syncTo) s1))"

text \<open>
  \<^verbatim>\<open>Object.assign(this._owners[index], data.owner)\<close> writes both fields of the payload
  into the entry found, which has no other field; \<open>index\<close> is within the list.
\<close>

definition updateOwner ::
  "('t, 'a) env \<Rightarrow> ShapeOwner \<Rightarrow> SyncTo \<Rightarrow> ('t, 'a) state \<Rightarrow> ('t, 'a) outcome" where
  "updateOwner env owner syncTo s =
     (case s_uuid s of
        None \<Rightarrow> returns s []
      | Some u \<Rightarrow>
          (case hasEditAccess env s of
             Inl e \<Rightarrow> throws e s
           | Inr b \<Rightarrow>
               if \<not> b then returns s []
               else
                 let index = findIndex (\<lambda>ow. user ow = user owner) (s_owners s) in
                 if index < 0 then returns s []
                 else
                   let merged = \<lparr>user = user owner, access = access owner\<rparr>;
                       s1 = s\<lparr>s_owners := (s_owners s)[nat index := merged]\<rparr>;
                       copy = \<lparr>user = user owner,
                               access = \<lparr>edit = edit (access owner),
                                         movement = movement (access owner),
                                         vision = vision (access owner)\<rparr>\<rparr>
                   in forward env syncTo u (Shape_updateOwner u copy syncTo) s1))"

definition removeOwner ::
  "('t, 'a) env \<Rightarrow> string \<Rightarrow> SyncTo \<Rightarrow> ('t, 'a) state \<Rightarrow> ('t, 'a) outcome" where
  "removeOwner env owner syncTo s =
     (case s_uuid s of
        None \<Rightarrow> returns s []
      | Some u \<Rightarrow>
          (case hasEditAccess env s of
             Inl e \<Rightarrow> throws e s
           | Inr b \<Rightarrow>
               if \<not> b then returns s []
               else
                 let s1 = s\<lparr>s_owners := filter (\<lambda>ow. user ow \<noteq> owner) (s_owners s)\<rparr>
                 in forward env syncTo u (Shape_removeOwner u owner syncTo) s1))"

subsection \<open>Trackers\<close>

text \<open>
  The tracker and aura mutations test \<^verbatim>\<open>!activeShapeStore.hasEditAccess\<close> only; the
  getter answers false when \<^verbatim>\<open>_uuid\<close> is \<^verbatim>\<open>null\<close>, which is the first case below.
\<close>

definition pushTracker ::
  "('t, 'a) env \<Rightarrow> 't Tracker \<Rightarrow> string \<Rightarrow> SyncTo \<Rightarrow> ('t, 'a) state \<Rightarrow> ('t, 'a) outcome" where
  "pushTracker env tr sh syncTo s =
     (case hasEditAccess env s of
        Inl e \<Rightarrow> throws e s
      | Inr b \<Rightarrow>
          if \<not> b then returns s []
          else
            (case toUiTrackers [tr] sh of
               [] \<Rightarrow> throws TypeError s
             | tracker # _ \<Rightarrow>
                 if s_uuid s = Some sh then
                   forward env syncTo sh (Shape_pushTracker sh tr syncTo)
                     (s\<lparr>s_trackers := splice_insert (int (length (s_trackers s)) - 1) tracker (s_trackers s)\<rparr>)
                 else if s_parentUuid s = Some sh then
                   forward env syncTo sh (Shape_pushTracker sh tr syncTo)
                     (s\<lparr>s_trackers := splice_insert (firstRealTrackerIndex s) tracker (s_trackers s),
                        firstRealTrackerIndex := firstRealTrackerIndex s + 1\<rparr>)
                 else returns s []))"

definition updateTracker ::
  "('t, 'a) env \<Rightarrow> string \<Rightarrow> 't Delta \<Rightarrow> SyncTo \<Rightarrow> string \<Rightarrow> ('t, 'a) state \<Rightarrow> ('t, 'a) outcome" where
  "updateTracker env tr delta syncTo fresh s =
     (case s_uuid s of
        None \<Rightarrow> returns s []
      | Some u \<Rightarrow>
     (case hasEditAccess env s of
        Inl e \<Rightarrow> throws e s
      | Inr b \<Rightarrow>
          if \<not> b then returns s []
          else
            (case find_ref (\<lambda>t. uuid t = tr) (s_trackers s) of
               None \<Rightarrow> returns s []
             | Some (k, t0) \<Rightarrow>
                 let tracker = assign t0 delta;
                     s1 = s\<lparr>s_trackers := (s_trackers s)[k := tracker]\<rparr>
                 in (case UUIDMap env (shape tracker) of
                       None \<Rightarrow> returns s1 []
                     | Some sh \<Rightarrow>
                         if syncTo \<noteq> UI then
                           if temporary tracker then
                             let promoted = tracker\<lparr>temporary := False\<rparr>;
                                 s2 = s1\<lparr>s_trackers := (s_trackers s1)[k := promoted]\<rparr>;
                                 s3 = s2\<lparr>s_trackers := s_trackers s2 @ [createEmptyTracker env fresh u]\<rparr>
                             in returns s3 [Shape_pushTracker (shape tracker) (entity_of promoted) SERVER]
                           else returns s1 [Shape_updateTracker (shape tracker) tr delta syncTo]
                         else returns s1 []))))"

definition removeTracker ::
  "('t, 'a) env \<Rightarrow> string \<Rightarrow> SyncTo \<Rightarrow> ('t, 'a) state \<Rightarrow> ('t, 'a) outcome" where
  "removeTracker env tr syncTo s =
     (case hasEditAccess env s of
        Inl e \<Rightarrow> throws e s
      | Inr b \<Rightarrow>
          if \<not> b then returns s []
          else
            let trackerIndex = findIndex (\<lambda>t. uuid t = tr) (s_trackers s) in
            if trackerIndex < 0 then returns s []
            else
              (case splice_remove trackerIndex (s_trackers s) of
                 (removed, rest) \<Rightarrow>
                   let s1 = s\<lparr>s_trackers := rest\<rparr>;
                       s2 = (if trackerIndex < firstRealTrackerIndex s1
                             then s1\<lparr>firstRealTrackerIndex := firstRealTrackerIndex s1 - 1\<rparr>
                             else s1)
                   in (case removed of
                         [] \<Rightarrow> throws TypeError s2
                       | tracker # _ \<Rightarrow>
                           (case UUIDMap env (shape tracker) of
                              None \<Rightarrow> returns s2 []
                            | Some sh \<Rightarrow>
                                if syncTo \<noteq> UI
                                then returns s2 [Shape_removeTracker (shape tracker) tr syncTo]
                                else returns s2 []))))"

subsection \<open>Auras\<close>

definition pushAura ::
  "('t, 'a) env \<Rightarrow> 'a Aura \<Rightarrow> string \<Rightarrow> SyncTo \<Rightarrow> ('t, 'a) state \<Rightarrow> ('t, 'a) outcome" where
  "pushAura env au sh syncTo s =
     (case hasEditAccess env s of
        Inl e \<Rightarrow> throws e s
      | Inr b \<Rightarrow>
          if \<not> b then returns s []
          else
            (case toUiAuras [au] sh of
               [] \<Rightarrow> throws TypeError s
             | aura # _ \<Rightarrow>
                 if s_uuid s = Some sh then
                   forward env syncTo sh (Shape_pushAura sh au syncTo)
                     (s\<lparr>s_auras := splice_insert (int (length (s_auras s)) - 1) aura (s_auras s)\<rparr>)
                 else if s_parentUuid s = Some sh then
                   forward env syncTo sh (Shape_pushAura sh au syncTo)
                     (s\<lparr>s_auras := splice_insert (firstRealAuraIndex s) aura (s_auras s),
                        firstRealAuraIndex := firstRealAuraIndex s + 1\<rparr>)
                 else returns s []))"

definition updateAura ::
  "('t, 'a) env \<Rightarrow> string \<Rightarrow> 'a Delta \<Rightarrow> SyncTo \<Rightarrow> string \<Rightarrow> ('t, 'a) state \<Rightarrow> ('t, 'a) outcome" where
  "updateAura env au delta syncTo fresh s =
     (case s_uuid s of
        None \<Rightarrow> returns s []
      | Some u \<Rightarrow>
     (case hasEditAccess env s of
        Inl e \<Rightarrow> throws e s
      | Inr b \<Rightarrow>
          if \<not> b then returns s []
          else
            (case find_ref (\<lambda>a. uuid a = au) (s_auras s) of
               None \<Rightarrow> returns s []
             | Some (k, a0) \<Rightarrow>
                 let aura = assign a0 delta;
                     s1 = s\<lparr>s_auras := (s_auras s)[k := aura]\<rparr>
                 in (case UUIDMap env (shape aura) of
                       None \<Rightarrow> returns s1 []
                     | Some sh \<Rightarrow>
                         if syncTo \<noteq> UI then
                           if temporary aura then
                             let promoted = aura\<lparr>temporary := False\<rparr>;
                                 s2 = s1\<lparr>s_auras := (s_auras s1)[k := promoted]\<rparr>;
                                 s3 = s2\<lparr>s_auras := s_auras s2 @ [createEmptyAura env fresh u]\<rparr>
                             in returns s3 [Shape_pushAura (shape aura) (entity_of promoted) SERVER]
                           else returns s1 [Shape_updateAura (shape aura) au delta syncTo]
                         else returns s1 []))))"

definition removeAura ::
  "('t, 'a) env \<Rightarrow> string \<Rightarrow> SyncTo \<Rightarrow> ('t, 'a) state \<Rightarrow> ('t, 'a) outcome" where
  "removeAura env au syncTo s =
     (case hasEditAccess env s of
        Inl e \<Rightarrow> throws e s
      | Inr b \<Rightarrow>
          if \<not> b then returns s []
          else
            let auraIndex = findIndex (\<lambda>t. uuid t = au) (s_auras s) in
            if auraIndex < 0 then returns s []
            else
              (case splice_remove auraIndex (s_auras s) of
                 (removed, rest) \<Rightarrow>
                   let s1 = s\<lparr>s_auras := rest\<rparr>;
                       s2 = (if auraIndex < firstRealAuraIndex s1
                             then s1\<lparr>firstRealAuraIndex := firstRealAuraIndex s1 - 1\<rparr>
                             else s1)
                   in (case removed of
                         [] \<Rightarrow> throws TypeError s2
                       | aura # _ \<Rightarrow>
                           (case UUIDMap env (shape aura) of
                              None \<Rightarrow> returns s2 []
                            | Some sh \<Rightarrow>
                                if syncTo \<noteq> UI
                                then returns s2 [Shape_removeAura (shape aura) au syncTo]
                                else returns s2 []))))"

subsection \<open>Startup and cleanup\<close>

text \<open>
  \<open>freshT\<close> and \<open>freshA\<close> are the identities drawn for the two placeholders. The two
  cursors are assigned only in the branch of a resolved parent.
\<close>

definition setActiveShape ::
  "('t, 'a) env \<Rightarrow> ('t, 'a) Shape \<Rightarrow> string \<Rightarrow> string \<Rightarrow> ('t, 'a) state \<Rightarrow> ('t, 'a) state" where
  "setActiveShape env sh freshT freshA s =
     (let u = shape_uuid sh;
          parent = getCompositeParent env u;
          s1 = s\<lparr>s_uuid := Some u,
                 s_parentUuid := (case parent of None \<Rightarrow> None | Some p \<Rightarrow> Some (shape_uuid p)),
                 s_access := Some \<lparr>edit = edit (defaultAccess sh),
                                   movement = movement (defaultAccess sh),
                                   vision = vision (defaultAccess sh)\<rparr>,
                 s_owners := map (\<lambda>ow. \<lparr>user = user ow,
                                         access = \<lparr>edit = edit (access ow),
                                                   movement = movement (access ow),
                                                   vision = vision (access ow)\<rparr>\<rparr>)
                               (shape_owners sh),
                 s_trackers := [],
                 s_auras := []\<rparr>;
          s2 = (case parent of
                  None \<Rightarrow> s1
                | Some p \<Rightarrow>
                    let t1 = s_trackers s1 @ toUiTrackers (own_trackers p) (shape_uuid p);
                        a1 = s_auras s1 @ toUiAuras (own_auras p) (shape_uuid p)
                    in s1\<lparr>s_trackers := t1, firstRealTrackerIndex := int (length t1),
                          s_auras := a1, firstRealAuraIndex := int (length a1)\<rparr>)
      in s2\<lparr>s_trackers := s_trackers s2 @ toUiTrackers (own_trackers sh) u
                            @ [createEmptyTracker env freshT u],
            s_auras := s_auras s2 @ toUiAuras (own_auras sh) u
                            @ [createEmptyAura env freshA u]\<rparr>)"

definition clear :: "('t, 'a) state \<Rightarrow> ('t, 'a) state" where
  "clear s =
     s\<lparr>s_lastUuid := s_uuid s, s_uuid := None, s_parentUuid := None,
       s_access := None, s_owners := [],
       firstRealTrackerIndex := 0, s_trackers := [],
       firstRealAuraIndex := 0, s_auras := []\<rparr>"

section \<open>Events\<close>

text \<open>
  The write surface as a datatype of events, so that sequences of mutations can be
  run. An update carries the identity that its placeholder would get.
\<close>

datatype ('t, 'a) action =
    SetDefaultAccess ShapeAccess SyncTo
  | SetDefaultEditAccess bool SyncTo
  | SetDefaultMovementAccess bool SyncTo
  | SetDefaultVisionAccess bool SyncTo
  | AddOwner ShapeOwner SyncTo
  | UpdateOwner ShapeOwner SyncTo
  | RemoveOwner string SyncTo
  | PushTracker "'t Tracker" string SyncTo
  | UpdateTracker string "'t Delta" SyncTo string
  | RemoveTracker string SyncTo
  | PushAura "'a Aura" string SyncTo
  | UpdateAura string "'a Delta" SyncTo string
  | RemoveAura string SyncTo

fun step :: "('t, 'a) env \<Rightarrow> ('t, 'a) action \<Rightarrow> ('t, 'a) state \<Rightarrow> ('t, 'a) outcome" where
  "step env (SetDefaultAccess a t) s = setDefaultAccess env a t s"
| "step env (SetDefaultEditAccess b t) s = setDefaultEditAccess env b t s"
| "step env (SetDefaultMovementAccess b t) s = setDefaultMovementAccess env b t s"
| "step env (SetDefaultVisionAccess b t) s = setDefaultVisionAccess env b t s"
| "step env (AddOwner ow t) s = addOwner env ow t s"
| "step env (UpdateOwner ow t) s = updateOwner env ow t s"
| "step env (RemoveOwner ow t) s = removeOwner env ow t s"
| "step env (PushTracker tr sh t) s = pushTracker env tr sh t s"
| "step env (UpdateTracker tr d t fresh) s = updateTracker env tr d t fresh s"
| "step env (RemoveTracker tr t) s = removeTracker env tr t s"
| "step env (PushAura au sh t) s = pushAura env au sh t s"
| "step env (UpdateAura au d t fresh) s = updateAura env au d t fresh s"
| "step env (RemoveAura au t) s = removeAura env au t s"

fun syncTo_of :: "('t, 'a) action \<Rightarrow> SyncTo" where
  "syncTo_of (SetDefaultAccess a t) = t"
| "syncTo_of (SetDefaultEditAccess b t) = t"
| "syncTo_of (SetDefaultMovementAccess b t) = t"
| "syncTo_of (SetDefaultVisionAccess b t) = t"
| "syncTo_of (AddOwner ow t) = t"
| "syncTo_of (UpdateOwner ow t) = t"
| "syncTo_of (RemoveOwner ow t) = t"
| "syncTo_of (PushTracker tr sh t) = t"
| "syncTo_of (UpdateTracker tr d t fresh) = t"
| "syncTo_of (RemoveTracker tr t) = t"
| "syncTo_of (PushAura au sh t) = t"
| "syncTo_of (UpdateAura au d t fresh) = t"
| "syncTo_of (RemoveAura au t) = t"

text \<open>
  A run of events, each with the environment it meets. An exception ends the event
  that raised it, not the run: the next event finds the state as the raise left it.
\<close>

fun run :: "(('t, 'a) env \<times> ('t, 'a) action) list \<Rightarrow> ('t, 'a) state \<Rightarrow> ('t, 'a) state" where
  "run [] s = s"
| "run ((env, a) # rest) s = run rest (st (step env a s))"

section \<open>The list mutations as functions on a list and its cursor\<close>

text \<open>
  The tracker and the aura mutations are the same code on two pairs of fields. What they
  do to a list and its cursor is stated once, on the pair, and shown below to be what
  the mutations of the store do (\<open>step_trackers\<close>, \<open>step_auras\<close>).
\<close>

text \<open>
  One entry of \<open>toUiTrackers\<close> and of \<open>toUiAuras\<close>.
\<close>

definition toUi :: "'d Entity \<Rightarrow> string \<Rightarrow> 'd UiEntity" where
  "toUi e sh =
     \<lparr>uuid = uuid e, payload = payload e,
      shape = (case own_shape e of None \<Rightarrow> sh | Some q \<Rightarrow> q),
      temporary = (case own_temporary e of None \<Rightarrow> False | Some b \<Rightarrow> b)\<rparr>"

text \<open>
  \<open>pushTracker\<close> and \<open>pushAura\<close> behind the permission gate: \<open>u\<close> is \<open>_uuid\<close>, \<open>p\<close> is
  \<open>_parentUuid\<close>.
\<close>

definition list_push ::
  "string option \<Rightarrow> string option \<Rightarrow> string \<Rightarrow> 'd Entity \<Rightarrow> 'd UiEntity list \<times> int \<Rightarrow> 'd UiEntity list \<times> int" where
  "list_push u p sh e lc =
     (case lc of (xs, c) \<Rightarrow>
        if u = Some sh then (splice_insert (int (length xs) - 1) (toUi e sh) xs, c)
        else if p = Some sh then (splice_insert c (toUi e sh) xs, c + 1)
        else (xs, c))"

text \<open>
  \<open>updateTracker\<close> and \<open>updateAura\<close> behind the permission gate: \<open>known\<close> tells whether a
  shape is in \<open>UUIDMap\<close>, \<open>ph\<close> is the placeholder to append on a promotion.
\<close>

definition list_edit ::
  "(string \<Rightarrow> bool) \<Rightarrow> SyncTo \<Rightarrow> string \<Rightarrow> 'd Delta \<Rightarrow> 'd UiEntity \<Rightarrow> 'd UiEntity list \<times> int \<Rightarrow> 'd UiEntity list \<times> int" where
  "list_edit known t i d ph lc =
     (case lc of (xs, c) \<Rightarrow>
        (case find_ref (\<lambda>x. uuid x = i) xs of
           None \<Rightarrow> (xs, c)
         | Some (k, x) \<Rightarrow>
             if known (shape x) \<and> t \<noteq> UI \<and> temporary x
             then (xs[k := (assign x d)\<lparr>temporary := False\<rparr>] @ [ph], c)
             else (xs[k := assign x d], c)))"

text \<open>
  \<open>removeTracker\<close> and \<open>removeAura\<close> behind the permission gate.
\<close>

definition list_remove :: "string \<Rightarrow> 'd UiEntity list \<times> int \<Rightarrow> 'd UiEntity list \<times> int" where
  "list_remove i lc =
     (case lc of (xs, c) \<Rightarrow>
        let k = findIndex (\<lambda>x. uuid x = i) xs in
        if k < 0 then (xs, c)
        else (snd (splice_remove k xs), if k < c then c - 1 else c))"

text \<open>
  The two pairs of a state, and the state with one pair replaced.
\<close>

definition trackers_of :: "('t, 'a) state \<Rightarrow> 't UiTracker list \<times> int" where
  "trackers_of s = (s_trackers s, firstRealTrackerIndex s)"

definition auras_of :: "('t, 'a) state \<Rightarrow> 'a UiAura list \<times> int" where
  "auras_of s = (s_auras s, firstRealAuraIndex s)"

definition set_trackers :: "'t UiTracker list \<times> int \<Rightarrow> ('t, 'a) state \<Rightarrow> ('t, 'a) state" where
  "set_trackers lc s = s\<lparr>s_trackers := fst lc, firstRealTrackerIndex := snd lc\<rparr>"

definition set_auras :: "'a UiAura list \<times> int \<Rightarrow> ('t, 'a) state \<Rightarrow> ('t, 'a) state" where
  "set_auras lc s = s\<lparr>s_auras := fst lc, firstRealAuraIndex := snd lc\<rparr>"

text \<open>
  Whether \<^verbatim>\<open>UUIDMap.get\<close> finds a shape.
\<close>

definition known :: "('t, 'a) env \<Rightarrow> string \<Rightarrow> bool" where
  "known env k = (UUIDMap env k \<noteq> None)"



section \<open>Properties of states and of runs\<close>

text \<open>
  Exactly one entry of the list is temporary, and it is the last one.
\<close>

definition one_trailing_placeholder :: "'d UiEntity list \<Rightarrow> bool" where
  "one_trailing_placeholder xs =
     (length (filter temporary xs) = 1 \<and> xs \<noteq> [] \<and> temporary (last xs))"

text \<open>
  An identity locates a temporary entry: the first entry with that identity, the one
  \<^verbatim>\<open>findIndex\<close> finds, is temporary.
\<close>

definition hits_placeholder :: "string \<Rightarrow> 'd UiEntity list \<Rightarrow> bool" where
  "hits_placeholder i xs =
     (case find_ref (\<lambda>x. uuid x = i) xs of None \<Rightarrow> False | Some (k, x) \<Rightarrow> temporary x)"
















text \<open>
  An event that adds a second entry of a user: an \<open>addOwner\<close> that passes the permission
  gate for a user of the list.
\<close>

fun adds_duplicate :: "('t, 'a) env \<Rightarrow> ('t, 'a) action \<Rightarrow> ('t, 'a) state \<Rightarrow> bool" where
  "adds_duplicate env (AddOwner ow t) s =
     (hasEditAccess env s = Inr True \<and> user ow \<in> set (map user (s_owners s)))"
| "adds_duplicate env a s = False"

text \<open>
  No event of the run does so on the state it meets.
\<close>

fun adds_no_duplicate :: "(('t, 'a) env \<times> ('t, 'a) action) list \<Rightarrow> ('t, 'a) state \<Rightarrow> bool" where
  "adds_no_duplicate [] s = True"
| "adds_no_duplicate ((env, a) # rest) s =
     (\<not> adds_duplicate env a s \<and> adds_no_duplicate rest (st (step env a s)))"





text \<open>
  The target of an update or a remove is there: an entry with that identity is in the
  list, and the shape of the first one is in \<open>UUIDMap\<close>.
\<close>

definition resolves :: "('t, 'a) env \<Rightarrow> string \<Rightarrow> 'd UiEntity list \<Rightarrow> bool" where
  "resolves env i xs =
     (case find_ref (\<lambda>x. uuid x = i) xs of
        None \<Rightarrow> False
      | Some (k, x) \<Rightarrow> UUIDMap env (shape x) \<noteq> None)"

text \<open>
  The target of an event is there. The default-access setters and \<open>addOwner\<close> have
  none; \<open>removeOwner\<close> does not look for its owner.
\<close>

fun addressed :: "('t, 'a) env \<Rightarrow> ('t, 'a) action \<Rightarrow> ('t, 'a) state \<Rightarrow> bool" where
  "addressed env (UpdateOwner ow t) s = (\<not> findIndex (\<lambda>x. user x = user ow) (s_owners s) < 0)"
| "addressed env (PushTracker tr sh t) s = (s_uuid s = Some sh \<or> s_parentUuid s = Some sh)"
| "addressed env (UpdateTracker i d t fresh) s = resolves env i (s_trackers s)"
| "addressed env (RemoveTracker i t) s = resolves env i (s_trackers s)"
| "addressed env (PushAura au sh t) s = (s_uuid s = Some sh \<or> s_parentUuid s = Some sh)"
| "addressed env (UpdateAura i d t fresh) s = resolves env i (s_auras s)"
| "addressed env (RemoveAura i t) s = resolves env i (s_auras s)"
| "addressed env a s = True"

text \<open>
  A \<open>removeOwner\<close> of a user who is not in the owner list.
\<close>

fun removes_absent_owner :: "('t, 'a) action \<Rightarrow> ('t, 'a) state \<Rightarrow> bool" where
  "removes_absent_owner (RemoveOwner u t) s = (u \<notin> set (map user (s_owners s)))"
| "removes_absent_owner a s = False"

text \<open>
  An event reaches its forward: its tag is not \<open>UI\<close>, the permission gate passes, its
  target is there and no exception is raised.
\<close>

definition forwarded :: "('t, 'a) env \<Rightarrow> ('t, 'a) action \<Rightarrow> ('t, 'a) state \<Rightarrow> bool" where
  "forwarded env a s =
     (syncTo_of a \<noteq> UI \<and> hasEditAccess env s = Inr True \<and> addressed env a s
      \<and> raised (step env a s) = None)"

section \<open>A selection to evaluate the model on\<close>

text \<open>
  The second scenario of the spec: a child \<open>B\<close> without trackers whose composite parent
  \<open>P\<close> has one tracker. The viewer is no DM; the default access of both shapes grants
  edit access.
\<close>

definition ex_access :: ShapeAccess where
  "ex_access = \<lparr>edit = True, movement = True, vision = True\<rparr>"

definition ex_parent :: "(nat, nat) Shape" where
  "ex_parent = \<lparr>shape_uuid = ''P'', defaultAccess = ex_access, shape_owners = [],
     own_trackers = [plain ''PT1'' 7], own_auras = []\<rparr>"

definition ex_child :: "(nat, nat) Shape" where
  "ex_child = \<lparr>shape_uuid = ''B'', defaultAccess = ex_access, shape_owners = [],
     own_trackers = [], own_auras = []\<rparr>"

definition ex_env :: "(nat, nat) env" where
  "ex_env = \<lparr>IS_DM = False, FAKE_PLAYER = False, activeTokens = [], username = ''ann'',
     UUIDMap = [''B'' \<mapsto> ex_child, ''P'' \<mapsto> ex_parent],
     getCompositeParent = [''B'' \<mapsto> ex_parent], emptyTracker = 0, emptyAura = 0\<rparr>"

definition ex_selected :: "(nat, nat) state" where
  "ex_selected = setActiveShape ex_env ex_child ''ph1'' ''ph2'' initial"

text \<open>
  An owner entry of the user \<open>bob\<close>, a delta that sets the remaining fields, and the
  environment once the shape \<open>B\<close> has left \<open>UUIDMap\<close>.
\<close>

definition ex_owner :: "bool \<Rightarrow> ShapeOwner" where
  "ex_owner e = \<lparr>user = ''bob'', access = \<lparr>edit = e, movement = True, vision = True\<rparr>\<rparr>"



lemma st_returns [simp]: "st (returns s cs) = s" and calls_returns [simp]: "calls (returns s cs) = cs"
  and raised_returns [simp]: "raised (returns s cs) = None"
  by (simp_all add: returns_def)

lemma st_throws [simp]: "st (throws e s) = s" and calls_throws [simp]: "calls (throws e s) = []"
  and raised_throws [simp]: "raised (throws e s) = Some e"
  by (simp_all add: throws_def)

lemma st_forward [simp]: "st (forward env t k c s) = s"
  by (simp add: forward_def split: option.splits)

lemma calls_forward:
  "calls (forward env t k c s) = (if t \<noteq> UI \<and> UUIDMap env k \<noteq> None then [c] else [])"
  by (auto simp add: forward_def split: option.splits)

lemma raised_forward:
  "raised (forward env t k c s) = (if t \<noteq> UI \<and> UUIDMap env k = None then Some TypeError else None)"
  by (auto simp add: forward_def split: option.splits)

lemma hasEditAccess_uuid: "hasEditAccess env s = Inr True \<Longrightarrow> \<exists>u. s_uuid s = Some u"
  by (auto simp: hasEditAccess_def split: option.splits)

lemma findIndex_ge: "- 1 \<le> findIndex P xs"
  by (induction xs) (auto simp: Let_def)

lemma findIndex_neg_iff: "findIndex P xs < 0 \<longleftrightarrow> (\<forall>x\<in>set xs. \<not> P x)"
  using findIndex_ge[of P] by (induction xs) (auto simp: Let_def)

lemma findIndex_lt: "findIndex P xs < int (length xs)"
  by (induction xs) (auto simp: Let_def)

lemma findIndex_sat: "0 \<le> findIndex P xs \<Longrightarrow> P (xs ! nat (findIndex P xs))"
proof (induction xs)
  case Nil
  then show ?case by simp
next
  case (Cons x xs)
  show ?case
  proof (cases "P x")
    case True
    then show ?thesis by simp
  next
    case False
    with Cons.prems have nn: "0 \<le> findIndex P xs"
      by (auto simp: Let_def split: if_splits)
    then have "nat (findIndex P xs + 1) = Suc (nat (findIndex P xs))" by simp
    with False nn Cons.IH show ?thesis by (simp add: Let_def)
  qed
qed

lemma find_ref_findIndex:
  "find_ref P xs = (if findIndex P xs < 0 then None
                    else Some (nat (findIndex P xs), xs ! nat (findIndex P xs)))"
proof (induction xs)
  case Nil
  then show ?case by simp
next
  case (Cons x xs)
  show ?case
  proof (cases "P x")
    case True
    then show ?thesis by simp
  next
    case False
    show ?thesis
    proof (cases "findIndex P xs < 0")
      case True
      with False Cons.IH show ?thesis by (simp add: Let_def)
    next
      case nn: False
      then have "nat (findIndex P xs + 1) = Suc (nat (findIndex P xs))" by simp
      with False nn Cons.IH show ?thesis by (simp add: Let_def)
    qed
  qed
qed



lemma splice_start_le: "splice_start i n \<le> n"
  by (auto simp add: splice_start_def max_def)


section \<open>The placeholder under insertion, update and removal\<close>






lemma temporary_assign [simp]: "temporary (assign x d) = temporary x"
  and shape_assign [simp]: "shape (assign x d) = shape x"
  by (simp_all add: assign_def)



lemma splice_remove_at:
  assumes "k < length xs"
  shows "splice_remove (int k) xs = ([xs ! k], take k xs @ drop (Suc k) xs)"
proof -
  from assms have "splice_start (int k) (length xs) = k" by (simp add: splice_start_def)
  moreover from assms have "take 1 (drop k xs) = [xs ! k]"
    by (simp add: Cons_nth_drop_Suc[symmetric])
  ultimately show ?thesis by (simp add: splice_remove_def)
qed


section \<open>What the mutations do to the state\<close>

lemma toUiTrackers_single [simp]: "toUiTrackers [e] sh = [toUi e sh]"
  by (simp add: toUiTrackers_def toUi_def)

lemma toUiAuras_single [simp]: "toUiAuras [e] sh = [toUi e sh]"
  by (simp add: toUiAuras_def toUi_def)

lemma pushTracker_st:
  "st (pushTracker env tr sh t s) =
     (if hasEditAccess env s = Inr True
      then set_trackers (list_push (s_uuid s) (s_parentUuid s) sh tr (trackers_of s)) s
      else s)"
  by (cases "hasEditAccess env s")
     (auto simp: pushTracker_def list_push_def set_trackers_def trackers_of_def)

lemma pushAura_st:
  "st (pushAura env au sh t s) =
     (if hasEditAccess env s = Inr True
      then set_auras (list_push (s_uuid s) (s_parentUuid s) sh au (auras_of s)) s
      else s)"
  by (cases "hasEditAccess env s")
     (auto simp: pushAura_def list_push_def set_auras_def auras_of_def)

lemma updateTracker_st:
  "st (updateTracker env i d t fresh s) =
     (case s_uuid s of None \<Rightarrow> s
      | Some u \<Rightarrow>
          if hasEditAccess env s = Inr True
          then set_trackers (list_edit (known env) t i d (createEmptyTracker env fresh u) (trackers_of s)) s
          else s)"
  by (cases "hasEditAccess env s")
     (auto simp: updateTracker_def list_edit_def set_trackers_def trackers_of_def known_def Let_def
           split: option.splits)

lemma updateAura_st:
  "st (updateAura env i d t fresh s) =
     (case s_uuid s of None \<Rightarrow> s
      | Some u \<Rightarrow>
          if hasEditAccess env s = Inr True
          then set_auras (list_edit (known env) t i d (createEmptyAura env fresh u) (auras_of s)) s
          else s)"
  by (cases "hasEditAccess env s")
     (auto simp: updateAura_def list_edit_def set_auras_def auras_of_def known_def Let_def
           split: option.splits)

lemma splice_remove_found:
  assumes "\<not> findIndex P xs < 0"
  shows "splice_remove (findIndex P xs) xs =
           ([xs ! nat (findIndex P xs)],
            take (nat (findIndex P xs)) xs @ drop (Suc (nat (findIndex P xs))) xs)"
proof -
  from assms findIndex_lt[of P xs] have "nat (findIndex P xs) < length xs" by simp
  from splice_remove_at[OF this] assms show ?thesis by simp
qed

lemma removeTracker_st:
  "st (removeTracker env i t s) =
     (if hasEditAccess env s = Inr True
      then set_trackers (list_remove i (trackers_of s)) s
      else s)"
  by (cases "hasEditAccess env s")
     (auto simp: removeTracker_def list_remove_def set_trackers_def trackers_of_def Let_def
           splice_remove_found split: option.splits)

lemma removeAura_st:
  "st (removeAura env i t s) =
     (if hasEditAccess env s = Inr True
      then set_auras (list_remove i (auras_of s)) s
      else s)"
  by (cases "hasEditAccess env s")
     (auto simp: removeAura_def list_remove_def set_auras_def auras_of_def Let_def
           splice_remove_found split: option.splits)

lemma set_trackers_sel [simp]:
  "trackers_of (set_trackers lc s) = lc" "auras_of (set_trackers lc s) = auras_of s"
  "s_uuid (set_trackers lc s) = s_uuid s" "s_parentUuid (set_trackers lc s) = s_parentUuid s"
  "s_owners (set_trackers lc s) = s_owners s" "s_access (set_trackers lc s) = s_access s"
  "s_lastUuid (set_trackers lc s) = s_lastUuid s"
  by (simp_all add: set_trackers_def trackers_of_def auras_of_def)

lemma set_auras_sel [simp]:
  "auras_of (set_auras lc s) = lc" "trackers_of (set_auras lc s) = trackers_of s"
  "s_uuid (set_auras lc s) = s_uuid s" "s_parentUuid (set_auras lc s) = s_parentUuid s"
  "s_owners (set_auras lc s) = s_owners s" "s_access (set_auras lc s) = s_access s"
  "s_lastUuid (set_auras lc s) = s_lastUuid s"
  by (simp_all add: set_auras_def trackers_of_def auras_of_def)

lemma access_owner_st:
  "st (setDefaultAccess env a t s) = (if hasEditAccess env s = Inr True
      then s\<lparr>s_access := Some \<lparr>edit = edit a, movement = movement a, vision = vision a\<rparr>\<rparr> else s)"
  "st (addOwner env ow t s) = (if hasEditAccess env s = Inr True
      then s\<lparr>s_owners := s_owners s @ [ow]\<rparr> else s)"
  "st (removeOwner env u t s) = (if hasEditAccess env s = Inr True
      then s\<lparr>s_owners := filter (\<lambda>ow. user ow \<noteq> u) (s_owners s)\<rparr> else s)"
  "st (updateOwner env ow t s) = (if hasEditAccess env s = Inr True \<and> \<not> findIndex (\<lambda>x. user x = user ow) (s_owners s) < 0
      then s\<lparr>s_owners := (s_owners s)[nat (findIndex (\<lambda>x. user x = user ow) (s_owners s)) := \<lparr>user = user ow, access = access ow\<rparr>]\<rparr> else s)"
  by (cases "hasEditAccess env s";
      auto simp: setDefaultAccess_def addOwner_def removeOwner_def updateOwner_def Let_def
                 hasEditAccess_def split: option.splits)+

lemma access_setters_st:
  "st (setDefaultEditAccess env b t s) = (if hasEditAccess env s = Inr True then
      (case s_access s of None \<Rightarrow> s
       | Some a \<Rightarrow> s\<lparr>s_access := Some (if b then a\<lparr>edit := True, movement := True, vision := True\<rparr> else a\<lparr>edit := False\<rparr>)\<rparr>) else s)"
  "st (setDefaultMovementAccess env b t s) = (if hasEditAccess env s = Inr True then
      (case s_access s of None \<Rightarrow> s
       | Some a \<Rightarrow> s\<lparr>s_access := Some (if b then a\<lparr>movement := True, vision := True\<rparr> else a\<lparr>movement := False, edit := False\<rparr>)\<rparr>) else s)"
  "st (setDefaultVisionAccess env b t s) = (if hasEditAccess env s = Inr True then
      (case s_access s of None \<Rightarrow> s
       | Some a \<Rightarrow> s\<lparr>s_access := Some (if b then a\<lparr>vision := True\<rparr> else a\<lparr>vision := False, movement := False, edit := False\<rparr>)\<rparr>) else s)"
  by (cases "hasEditAccess env s";
      auto simp: setDefaultEditAccess_def setDefaultMovementAccess_def setDefaultVisionAccess_def Let_def
                 hasEditAccess_def split: option.splits)+

lemma of_upd [simp]:
  "trackers_of (s\<lparr>s_access := x\<rparr>) = trackers_of s" "trackers_of (s\<lparr>s_owners := y\<rparr>) = trackers_of s"
  "auras_of (s\<lparr>s_access := x\<rparr>) = auras_of s" "auras_of (s\<lparr>s_owners := y\<rparr>) = auras_of s"
  by (simp_all add: trackers_of_def auras_of_def)

lemmas step_st = access_owner_st access_setters_st pushTracker_st pushAura_st updateTracker_st
  updateAura_st removeTracker_st removeAura_st




section \<open>Invariants of the lists\<close>



lemma toUi_plain [simp]: "toUi (plain i v) sh = \<lparr>uuid = i, payload = v, shape = sh, temporary = False\<rparr>"
  by (simp add: toUi_def plain_def)

lemma length_splice_insert [simp]: "length (splice_insert c x xs) = Suc (length xs)"
  using splice_start_le[of c "length xs"] by (simp add: splice_insert_def Let_def)












section \<open>Selection\<close>








section \<open>Evaluation\<close>

lemmas model_defs =
  plain_def ex_access_def ex_parent_def ex_child_def ex_env_def ex_selected_def initial_def
  setActiveShape_def clear_def toUiTrackers_def toUiAuras_def toUi_def
  createEmptyTracker_def createEmptyAura_def
  hasEditAccess_def forward_def returns_def throws_def assign_def entity_of_def
  setDefaultAccess_def setDefaultEditAccess_def setDefaultMovementAccess_def
  setDefaultVisionAccess_def addOwner_def updateOwner_def removeOwner_def
  pushTracker_def updateTracker_def removeTracker_def
  pushAura_def updateAura_def removeAura_def
  splice_start_def splice_insert_def splice_remove_def
  hits_placeholder_def one_trailing_placeholder_def Let_def


section \<open>Owners\<close>

lemma map_user_updateOwner:
  assumes "\<not> findIndex (\<lambda>x. user x = u) xs < 0"
  shows "map user (xs[nat (findIndex (\<lambda>x. user x = u) xs) := \<lparr>user = u, access = a\<rparr>]) = map user xs"
proof -
  let ?k = "nat (findIndex (\<lambda>x. user x = u) xs)"
  from assms findIndex_sat[of "\<lambda>x. user x = u" xs] have "user (xs ! ?k) = u" by simp
  moreover from assms findIndex_lt[of "\<lambda>x. user x = u" xs] have "?k < length xs" by simp
  ultimately have "(map user xs)[?k := u] = map user xs"
    by (simp add: list_update_same_conv)
  then show ?thesis by (simp add: map_update)
qed

lemma owners_set_lists [simp]:
  "s_owners (set_trackers lc s) = s_owners s" "s_owners (set_auras lc s) = s_owners s"
  by (simp_all add: set_trackers_def set_auras_def)

lemma step_owners_distinct:
  assumes "distinct (map user (s_owners s))" "\<not> adds_duplicate env a s"
  shows "distinct (map user (s_owners (st (step env a s))))"
  using assms
  by (cases a)
     (auto simp: step_st map_user_updateOwner distinct_map_filter split: option.splits)

lemma run_owners_distinct:
  "distinct (map user (s_owners s)) \<Longrightarrow> adds_no_duplicate evs s
   \<Longrightarrow> distinct (map user (s_owners (run evs s)))"
proof (induction evs arbitrary: s)
  case Nil
  then show ?case by simp
next
  case (Cons ev evs)
  obtain env a where ev: "ev = (env, a)" by (cases ev)
  from Cons.prems have "distinct (map user (s_owners (st (step env a s))))"
    and "adds_no_duplicate evs (st (step env a s))"
    by (simp_all add: ev step_owners_distinct)
  then show ?case by (simp add: ev Cons.IH)
qed

section \<open>Segments and the cursor\<close>
















lemma length_toUi [simp]:
  "length (toUiTrackers ts sh) = length ts" "length (toUiAuras as sh) = length as"
  by (simp_all add: toUiTrackers_def toUiAuras_def)


section \<open>Reachable states\<close>









section \<open>Gateway calls\<close>

lemma forward_char:
  "calls (forward env t k c s) \<noteq> [] \<longleftrightarrow> t \<noteq> UI \<and> raised (forward env t k c s) = None"
  "length (calls (forward env t k c s)) \<le> Suc 0"
  by (auto simp: forward_def split: option.splits)

lemma gate_cases:
  obtains (raises) e where "hasEditAccess env s = Inl e"
  | (denied) "hasEditAccess env s = Inr False"
  | (granted) u where "hasEditAccess env s = Inr True" "s_uuid s = Some u"
proof (cases "hasEditAccess env s")
  case (Inl e)
  then show ?thesis by (rule raises)
next
  case (Inr b)
  show ?thesis
  proof (cases b)
    case True
    with Inr hasEditAccess_uuid[of env s] granted show ?thesis by auto
  next
    case False
    with Inr denied show ?thesis by simp
  qed
qed

lemma setDefaultAccess_calls:
  "(calls (setDefaultAccess env a t s) \<noteq> [] \<longleftrightarrow> t \<noteq> UI \<and> hasEditAccess env s = Inr True \<and> raised (setDefaultAccess env a t s) = None)
   \<and> length (calls (setDefaultAccess env a t s)) \<le> Suc 0"
  by (cases env s rule: gate_cases)
     (simp_all add: setDefaultAccess_def forward_char Let_def split: option.splits)

lemma setDefaultEditAccess_calls:
  "(calls (setDefaultEditAccess env b t s) \<noteq> [] \<longleftrightarrow> t \<noteq> UI \<and> hasEditAccess env s = Inr True \<and> raised (setDefaultEditAccess env b t s) = None)
   \<and> length (calls (setDefaultEditAccess env b t s)) \<le> Suc 0"
  by (cases env s rule: gate_cases)
     (simp_all add: setDefaultEditAccess_def forward_char Let_def split: option.splits)

lemma setDefaultMovementAccess_calls:
  "(calls (setDefaultMovementAccess env b t s) \<noteq> [] \<longleftrightarrow> t \<noteq> UI \<and> hasEditAccess env s = Inr True \<and> raised (setDefaultMovementAccess env b t s) = None)
   \<and> length (calls (setDefaultMovementAccess env b t s)) \<le> Suc 0"
  by (cases env s rule: gate_cases)
     (simp_all add: setDefaultMovementAccess_def forward_char Let_def split: option.splits)

lemma setDefaultVisionAccess_calls:
  "(calls (setDefaultVisionAccess env b t s) \<noteq> [] \<longleftrightarrow> t \<noteq> UI \<and> hasEditAccess env s = Inr True \<and> raised (setDefaultVisionAccess env b t s) = None)
   \<and> length (calls (setDefaultVisionAccess env b t s)) \<le> Suc 0"
  by (cases env s rule: gate_cases)
     (simp_all add: setDefaultVisionAccess_def forward_char Let_def split: option.splits)

lemma addOwner_calls:
  "(calls (addOwner env ow t s) \<noteq> [] \<longleftrightarrow> t \<noteq> UI \<and> hasEditAccess env s = Inr True \<and> raised (addOwner env ow t s) = None)
   \<and> length (calls (addOwner env ow t s)) \<le> Suc 0"
  by (cases env s rule: gate_cases)
     (simp_all add: addOwner_def forward_char Let_def split: option.splits)

lemma removeOwner_calls:
  "(calls (removeOwner env u t s) \<noteq> [] \<longleftrightarrow> t \<noteq> UI \<and> hasEditAccess env s = Inr True \<and> raised (removeOwner env u t s) = None)
   \<and> length (calls (removeOwner env u t s)) \<le> Suc 0"
  by (cases env s rule: gate_cases)
     (simp_all add: removeOwner_def forward_char Let_def split: option.splits)

lemma updateOwner_calls:
  "(calls (updateOwner env ow t s) \<noteq> [] \<longleftrightarrow> t \<noteq> UI \<and> hasEditAccess env s = Inr True \<and> \<not> findIndex (\<lambda>x. user x = user ow) (s_owners s) < 0 \<and> raised (updateOwner env ow t s) = None)
   \<and> length (calls (updateOwner env ow t s)) \<le> Suc 0"
  by (cases env s rule: gate_cases)
     (simp_all add: updateOwner_def forward_char Let_def split: option.splits)

lemma pushTracker_calls:
  "(calls (pushTracker env tr sh t s) \<noteq> [] \<longleftrightarrow> t \<noteq> UI \<and> hasEditAccess env s = Inr True \<and> (s_uuid s = Some sh \<or> s_parentUuid s = Some sh) \<and> raised (pushTracker env tr sh t s) = None)
   \<and> length (calls (pushTracker env tr sh t s)) \<le> Suc 0"
  by (cases env s rule: gate_cases)
     (simp_all add: pushTracker_def forward_char Let_def split: option.splits)

lemma pushAura_calls:
  "(calls (pushAura env au sh t s) \<noteq> [] \<longleftrightarrow> t \<noteq> UI \<and> hasEditAccess env s = Inr True \<and> (s_uuid s = Some sh \<or> s_parentUuid s = Some sh) \<and> raised (pushAura env au sh t s) = None)
   \<and> length (calls (pushAura env au sh t s)) \<le> Suc 0"
  by (cases env s rule: gate_cases)
     (simp_all add: pushAura_def forward_char Let_def split: option.splits)

lemma updateTracker_calls:
  "(calls (updateTracker env i d t fresh s) \<noteq> [] \<longleftrightarrow>
     t \<noteq> UI \<and> hasEditAccess env s = Inr True \<and> resolves env i (s_trackers s)
     \<and> raised (updateTracker env i d t fresh s) = None)
     \<and> length (calls (updateTracker env i d t fresh s)) \<le> Suc 0"
proof (cases env s rule: gate_cases)
  case (raises e)
  then show ?thesis by (simp add: updateTracker_def split: option.splits)
next
  case denied
  then show ?thesis by (simp add: updateTracker_def split: option.splits)
next
  case (granted u)
  show ?thesis
  proof (cases "find_ref (\<lambda>x. uuid x = i) (s_trackers s)")
    case None
    with granted show ?thesis by (simp add: updateTracker_def resolves_def)
  next
    case (Some kx)
    obtain k x where kx: "kx = (k, x)" by (cases kx)
    show ?thesis
    proof (cases "UUIDMap env (shape x)")
      case None
      with granted Some kx show ?thesis by (simp add: updateTracker_def resolves_def Let_def)
    next
      case (Some sh)
      with granted \<open>find_ref (\<lambda>x. uuid x = i) (s_trackers s) = Some kx\<close> kx show ?thesis
        by (simp add: updateTracker_def resolves_def Let_def)
    qed
  qed
qed

lemma updateAura_calls:
  "(calls (updateAura env i d t fresh s) \<noteq> [] \<longleftrightarrow>
     t \<noteq> UI \<and> hasEditAccess env s = Inr True \<and> resolves env i (s_auras s)
     \<and> raised (updateAura env i d t fresh s) = None)
     \<and> length (calls (updateAura env i d t fresh s)) \<le> Suc 0"
proof (cases env s rule: gate_cases)
  case (raises e)
  then show ?thesis by (simp add: updateAura_def split: option.splits)
next
  case denied
  then show ?thesis by (simp add: updateAura_def split: option.splits)
next
  case (granted u)
  show ?thesis
  proof (cases "find_ref (\<lambda>x. uuid x = i) (s_auras s)")
    case None
    with granted show ?thesis by (simp add: updateAura_def resolves_def)
  next
    case (Some kx)
    obtain k x where kx: "kx = (k, x)" by (cases kx)
    show ?thesis
    proof (cases "UUIDMap env (shape x)")
      case None
      with granted Some kx show ?thesis by (simp add: updateAura_def resolves_def Let_def)
    next
      case (Some sh)
      with granted \<open>find_ref (\<lambda>x. uuid x = i) (s_auras s) = Some kx\<close> kx show ?thesis
        by (simp add: updateAura_def resolves_def Let_def)
    qed
  qed
qed

lemma removeTracker_calls:
  "(calls (removeTracker env i t s) \<noteq> [] \<longleftrightarrow>
     t \<noteq> UI \<and> hasEditAccess env s = Inr True \<and> resolves env i (s_trackers s)
     \<and> raised (removeTracker env i t s) = None)
     \<and> length (calls (removeTracker env i t s)) \<le> Suc 0"
proof (cases env s rule: gate_cases)
  case (raises e)
  then show ?thesis by (simp add: removeTracker_def)
next
  case denied
  then show ?thesis by (simp add: removeTracker_def)
next
  case (granted u)
  show ?thesis
  proof (cases "findIndex (\<lambda>x. uuid x = i) (s_trackers s) < 0")
    case True
    with granted show ?thesis by (simp add: removeTracker_def resolves_def find_ref_findIndex)
  next
    case False
    with granted show ?thesis
      by (simp add: removeTracker_def resolves_def find_ref_findIndex splice_remove_found Let_def
            split: option.splits)
  qed
qed

lemma removeAura_calls:
  "(calls (removeAura env i t s) \<noteq> [] \<longleftrightarrow>
     t \<noteq> UI \<and> hasEditAccess env s = Inr True \<and> resolves env i (s_auras s)
     \<and> raised (removeAura env i t s) = None)
     \<and> length (calls (removeAura env i t s)) \<le> Suc 0"
proof (cases env s rule: gate_cases)
  case (raises e)
  then show ?thesis by (simp add: removeAura_def)
next
  case denied
  then show ?thesis by (simp add: removeAura_def)
next
  case (granted u)
  show ?thesis
  proof (cases "findIndex (\<lambda>x. uuid x = i) (s_auras s) < 0")
    case True
    with granted show ?thesis by (simp add: removeAura_def resolves_def find_ref_findIndex)
  next
    case False
    with granted show ?thesis
      by (simp add: removeAura_def resolves_def find_ref_findIndex splice_remove_found Let_def
            split: option.splits)
  qed
qed

lemmas step_calls =
  setDefaultAccess_calls setDefaultEditAccess_calls setDefaultMovementAccess_calls
  setDefaultVisionAccess_calls addOwner_calls removeOwner_calls updateOwner_calls
  pushTracker_calls pushAura_calls updateTracker_calls updateAura_calls
  removeTracker_calls removeAura_calls

section \<open>Mutations without effect\<close>

text \<open>
  Without effective edit access, and so without a selection, every mutation leaves the
  state as it is, calls nothing and raises nothing. So do \<open>updateOwner\<close> and the updates
  and removes of trackers and auras when their target is not in the list.
\<close>

lemma denied_is_noop:
  assumes "hasEditAccess env s = Inr False"
  shows "step env a s = returns s []"
  using assms
  by (cases a)
     (simp_all add: setDefaultAccess_def setDefaultEditAccess_def setDefaultMovementAccess_def
        setDefaultVisionAccess_def addOwner_def updateOwner_def removeOwner_def
        pushTracker_def updateTracker_def removeTracker_def
        pushAura_def updateAura_def removeAura_def split: option.splits)

lemma unselected_is_noop:
  assumes "s_uuid s = None"
  shows "step env a s = returns s []"
proof -
  from assms have "hasEditAccess env s = Inr False" by (simp add: hasEditAccess_def)
  then show ?thesis by (rule denied_is_noop)
qed

lemma find_ref_None_iff: "find_ref P xs = None \<longleftrightarrow> findIndex P xs < 0"
  by (simp add: find_ref_findIndex)

lemma absent_target_is_noop:
  assumes "hasEditAccess env s = Inr True"
  shows "findIndex (\<lambda>x. user x = user ow) (s_owners s) < 0 \<Longrightarrow> updateOwner env ow t s = returns s []"
    and "findIndex (\<lambda>x. uuid x = i) (s_trackers s) < 0 \<Longrightarrow> updateTracker env i d t fresh s = returns s []"
    and "findIndex (\<lambda>x. uuid x = i) (s_trackers s) < 0 \<Longrightarrow> removeTracker env i t s = returns s []"
    and "findIndex (\<lambda>x. uuid x = j) (s_auras s) < 0 \<Longrightarrow> updateAura env j d' t fresh s = returns s []"
    and "findIndex (\<lambda>x. uuid x = j) (s_auras s) < 0 \<Longrightarrow> removeAura env j t s = returns s []"
  using assms hasEditAccess_uuid[OF assms]
  by (auto simp: updateOwner_def updateTracker_def removeTracker_def updateAura_def removeAura_def
        find_ref_None_iff[symmetric] Let_def)

text \<open>
  What a selection stores: the default access and the owners of the shape, copied field
  by field (the lists and cursors are \<open>setActiveShape_trackers\<close>, \<open>setActiveShape_auras\<close>
  and \<open>setActiveShape_cursors\<close>).
\<close>

lemma setActiveShape_snapshot:
  "s_access (setActiveShape env sh fT fA s) = Some (defaultAccess sh)"
  "s_owners (setActiveShape env sh fT fA s) = shape_owners sh"
  "s_lastUuid (setActiveShape env sh fT fA s) = s_lastUuid s"
proof -
  have "map (\<lambda>ow. \<lparr>user = user ow,
                    access = \<lparr>edit = edit (access ow), movement = movement (access ow),
                              vision = vision (access ow)\<rparr>\<rparr>) (shape_owners sh)
        = shape_owners sh"
    by (induction "shape_owners sh") (simp_all add: map_idI)
  then show "s_owners (setActiveShape env sh fT fA s) = shape_owners sh"
    by (simp add: setActiveShape_def Let_def split: option.splits)
  show "s_access (setActiveShape env sh fT fA s) = Some (defaultAccess sh)"
    by (simp add: setActiveShape_def Let_def split: option.splits)
  show "s_lastUuid (setActiveShape env sh fT fA s) = s_lastUuid s"
    by (simp add: setActiveShape_def Let_def split: option.splits)
qed

section \<open>The claims\<close>

text \<open>
  C1 (as amended). A mutation calls the gateway if and only if its sync tag is not
  \<open>UI\<close> and it passes its guards: the permission gate passes, its target is there (the
  owner of \<open>updateOwner\<close> is in the list; the shape of a push is the selection or its
  parent; the entity of an update or a remove is in its list and its shape is in
  \<open>UUIDMap\<close>) and no exception cuts it short. This is stated for every mutation but a
  \<open>removeOwner\<close> of a user who is not in the owner list. Every mutation makes one
  gateway call at most, and none when its tag is \<open>UI\<close>.
\<close>

theorem gateway_forwarding:
  "(\<not> removes_absent_owner a s \<longrightarrow> (calls (step env a s) \<noteq> [] \<longleftrightarrow> forwarded env a s))
   \<and> length (calls (step env a s)) \<le> 1
   \<and> (syncTo_of a = UI \<longrightarrow> calls (step env a s) = [])"
proof -
  have iff: "calls (step env a s) \<noteq> [] \<longleftrightarrow> forwarded env a s"
    by (cases a) (simp_all add: forwarded_def step_calls)
  moreover have "length (calls (step env a s)) \<le> Suc 0"
    by (cases a) (simp_all add: step_calls)
  moreover from iff have "syncTo_of a = UI \<longrightarrow> calls (step env a s) = []"
    by (auto simp: forwarded_def)
  ultimately show ?thesis by simp
qed

text \<open>
  On the selection of the child \<open>B\<close>: a push for \<open>B\<close> tagged \<open>SERVER\<close> is forwarded,
  the same push tagged \<open>UI\<close> is not.
\<close>

theorem gateway_forwarding_witness:
  "\<not> removes_absent_owner
       (PushTracker (plain ''T1'' 2) ''B'' SERVER :: (nat, nat) action) ex_selected
   \<and> forwarded ex_env (PushTracker (plain ''T1'' 2) ''B'' SERVER) ex_selected
   \<and> calls (step ex_env (PushTracker (plain ''T1'' 2) ''B'' SERVER) ex_selected) \<noteq> []
   \<and> syncTo_of (PushTracker (plain ''T1'' 2) ''B'' UI :: (nat, nat) action) = UI
   \<and> calls (step ex_env (PushTracker (plain ''T1'' 2) ''B'' UI) ex_selected) = []"
proof -
  have n: "\<not> removes_absent_owner
       (PushTracker (plain ''T1'' 2) ''B'' SERVER :: (nat, nat) action) ex_selected"
    by simp
  have f: "forwarded ex_env (PushTracker (plain ''T1'' 2) ''B'' SERVER) ex_selected"
    by (simp add: forwarded_def model_defs)
  have u: "syncTo_of (PushTracker (plain ''T1'' 2) ''B'' UI :: (nat, nat) action) = UI"
    by simp
  from gateway_forwarding[of "PushTracker (plain ''T1'' 2) ''B'' SERVER" ex_selected ex_env]
    gateway_forwarding[of "PushTracker (plain ''T1'' 2) ''B'' UI" ex_selected ex_env]
    n f u
  show ?thesis by blast
qed

text \<open>
  With no shape selected the permission gate is closed: a mutation whose tag is not
  \<open>UI\<close> makes no gateway call.
\<close>

theorem gateway_forwarding_counterexample:
  "syncTo_of (SetDefaultEditAccess True SERVER :: (nat, nat) action) \<noteq> UI
   \<and> calls (step ex_env (SetDefaultEditAccess True SERVER) initial) = []"
  by (simp add: model_defs)

text \<open>
  C2. Where the permission gate passes and the state holds an access descriptor:
  \<open>setDefaultEditAccess\<close> with true leaves a descriptor with movement and vision set;
  \<open>setDefaultMovementAccess\<close> with false leaves edit cleared; \<open>setDefaultVisionAccess\<close>
  with false leaves movement and edit cleared; \<open>setDefaultMovementAccess\<close> with true
  leaves vision set; whatever the sync tag.
\<close>

theorem access_propagation:
  assumes "hasEditAccess env s = Inr True" and "s_access s = Some a"
  shows "(\<exists>a'. s_access (st (setDefaultEditAccess env True t s)) = Some a' \<and> movement a' \<and> vision a')
       \<and> (\<exists>a'. s_access (st (setDefaultMovementAccess env False t s)) = Some a' \<and> \<not> edit a')
       \<and> (\<exists>a'. s_access (st (setDefaultVisionAccess env False t s)) = Some a'
                 \<and> \<not> movement a' \<and> \<not> edit a')
       \<and> (\<exists>a'. s_access (st (setDefaultMovementAccess env True t s)) = Some a' \<and> vision a')"
  using assms by (simp add: access_setters_st)

theorem access_propagation_witness:
  "hasEditAccess ex_env ex_selected = Inr True
   \<and> s_access ex_selected = Some \<lparr>edit = True, movement = True, vision = True\<rparr>
   \<and> s_access (st (setDefaultVisionAccess ex_env False SERVER ex_selected))
       = Some \<lparr>edit = False, movement = False, vision = False\<rparr>
   \<and> (\<exists>a'. s_access (st (setDefaultEditAccess ex_env True SERVER ex_selected)) = Some a'
             \<and> movement a' \<and> vision a')"
proof -
  have g: "hasEditAccess ex_env ex_selected = Inr True"
    by (simp add: model_defs)
  have a: "s_access ex_selected = Some \<lparr>edit = True, movement = True, vision = True\<rparr>"
    by (simp add: model_defs)
  have v: "s_access (st (setDefaultVisionAccess ex_env False SERVER ex_selected))
       = Some \<lparr>edit = False, movement = False, vision = False\<rparr>"
    by (simp add: model_defs)
  from access_propagation[OF g a, of SERVER] g a v show ?thesis by blast
qed

text \<open>
  C3 (as amended). From a state whose owner list has no two entries with the same user,
  after every run of mutations in which no \<open>addOwner\<close> that passes the permission gate
  adds a user that the list holds at that moment, no two entries of the owner list share
  a user. (\<open>updateOwner\<close> never changes the users of the list; \<open>addOwner\<close> appends its
  payload without looking for the user.)
\<close>

theorem owner_uniqueness:
  assumes "distinct (map user (s_owners s))" and "adds_no_duplicate evs s"
  shows "distinct (map user (s_owners (run evs s)))"
  using assms by (rule run_owners_distinct)

theorem owner_uniqueness_witness:
  "distinct (map user (s_owners ex_selected))
   \<and> adds_no_duplicate [(ex_env, AddOwner (ex_owner False) SERVER),
                         (ex_env, UpdateOwner (ex_owner True) UI)] ex_selected
   \<and> distinct (map user (s_owners (run [(ex_env, AddOwner (ex_owner False) SERVER),
                                         (ex_env, UpdateOwner (ex_owner True) UI)] ex_selected)))"
proof -
  have d: "distinct (map user (s_owners ex_selected))"
    by (simp add: model_defs)
  have h: "adds_no_duplicate [(ex_env, AddOwner (ex_owner False) SERVER),
                              (ex_env, UpdateOwner (ex_owner True) UI)] ex_selected"
    by (simp add: model_defs ex_owner_def)
  from owner_uniqueness[OF d h] d h show ?thesis by simp
qed

text \<open>
  Two \<open>addOwner\<close> calls with the same user, from a selection without owners: the list
  ends with two entries of that user.
\<close>

theorem owner_uniqueness_counterexample:
  "\<not> distinct (map user (s_owners (run [(ex_env, AddOwner (ex_owner False) UI),
                                          (ex_env, AddOwner (ex_owner True) UI)]
                                     (setActiveShape ex_env ex_child ''ph1'' ''ph2'' initial))))"
  by (simp add: model_defs ex_owner_def)










text \<open>
  C7 (the code at the failing input). \<open>removeOwner\<close> for a user who is not in the owner
  list, with the permission gate passing and a tag other than \<open>UI\<close>: the state is
  unchanged, and the removal is forwarded to the gateway all the same. (\<open>updateOwner\<close>,
  \<open>removeTracker\<close> and \<open>removeAura\<close> return before the forward when their target is
  not found.)
\<close>

theorem removeOwner_absent_forwards:
  "''bob'' \<notin> set (map user (s_owners ex_selected))
   \<and> hasEditAccess ex_env ex_selected = Inr True
   \<and> st (removeOwner ex_env ''bob'' SERVER ex_selected) = ex_selected
   \<and> calls (removeOwner ex_env ''bob'' SERVER ex_selected)
       = [Shape_removeOwner ''B'' ''bob'' SERVER]"
  by (simp add: model_defs)




text \<open>
  C9 (the code at the failing input). The child \<open>B\<close> of the parent \<open>P\<close> is selected,
  which sets the tracker cursor to 1; then \<open>P\<close>, which has no composite parent, is
  selected without a \<open>clear\<close> in between. The tracker list is rebuilt as the tracker of
  \<open>P\<close> and the placeholder, and the cursor is still 1, not 0.
\<close>

theorem setActiveShape_stale_cursor:
  "getCompositeParent ex_env (shape_uuid ex_parent) = None
   \<and> firstRealTrackerIndex (setActiveShape ex_env ex_child ''ph1'' ''ph2'' initial) = 1
   \<and> s_trackers (setActiveShape ex_env ex_parent ''ph3'' ''ph4''
                    (setActiveShape ex_env ex_child ''ph1'' ''ph2'' initial))
       = [\<lparr>uuid = ''PT1'', payload = 7, shape = ''P'', temporary = False\<rparr>,
          \<lparr>uuid = ''ph3'', payload = 0, shape = ''P'', temporary = True\<rparr>]
   \<and> firstRealTrackerIndex (setActiveShape ex_env ex_parent ''ph3'' ''ph4''
                    (setActiveShape ex_env ex_child ''ph1'' ''ph2'' initial)) = 1"
  by (simp add: model_defs)

text \<open>
  C10. The getter \<open>isComposite\<close> answers true in every state: \<open>_parentUuid\<close> is a string
  or \<^verbatim>\<open>null\<close>, never \<^verbatim>\<open>undefined\<close>, with which the getter compares it. It does so
  in the initial state, after \<open>clear\<close> and after a selection without a composite parent,
  where the getter \<open>parentUuid\<close> answers \<^verbatim>\<open>undefined\<close>.
\<close>

theorem isComposite_always:
  "isComposite (s :: ('t, 'a) state)
   \<and> isComposite (initial :: ('t, 'a) state) \<and> get_parentUuid (initial :: ('t, 'a) state) = JsUndefined
   \<and> isComposite (clear s) \<and> get_parentUuid (clear s) = JsUndefined
   \<and> isComposite (setActiveShape env sh fT fA s)
   \<and> isComposite (st (step env a s))"
proof -
  have c: "isComposite x" for x :: "('t, 'a) state"
    by (cases "s_parentUuid x") (simp_all add: isComposite_def)
  have "get_parentUuid (initial :: ('t, 'a) state) = JsUndefined"
    and "get_parentUuid (clear s) = JsUndefined"
    by (simp_all add: get_parentUuid_def initial_def clear_def)
  with c show ?thesis by blast
qed

end
